theory Spec2Isabelle
  imports Main
begin

section \<open>Data model\<close>

text \<open>
  The \<^verbatim>\<open>track\<close> struct of \<^verbatim>\<open>main.go\<close>. Go strings are byte sequences, as
  \<^typ>\<open>string\<close> is; \<^verbatim>\<open>End == ""\<close> is the source's encoding of "no end boundary".
  \<^verbatim>\<open>Number\<close> and \<^verbatim>\<open>Total\<close> are Go \<^verbatim>\<open>int\<close>s; \<^verbatim>\<open>run\<close> only ever stores
  values between 1 and 999 there, so they are modelled as \<^typ>\<open>int\<close>.
\<close>

record track =
  Number :: int
  Total :: int
  Title :: string
  Start :: string
  End :: string
  Artist :: string
  Album :: string

text \<open>
  The errors \<^verbatim>\<open>run\<close> returns, one constructor per \<^verbatim>\<open>return\<close> statement:
  \<^verbatim>\<open>"audio file not found"\<close>, \<^verbatim>\<open>"timecodes file not found"\<close>,
  \<^verbatim>\<open>"cannot read timecodes file"\<close>, \<^verbatim>\<open>"invalid format"\<close>, \<^verbatim>\<open>"invalid timecode"\<close>,
  \<^verbatim>\<open>"no timecodes found"\<close>, \<^verbatim>\<open>"too many tracks: %d"\<close> with the count, the error of
  \<^verbatim>\<open>os.MkdirAll\<close>, the error of \<^verbatim>\<open>cmd.Start\<close> and the error built from the
  child's standard error after \<^verbatim>\<open>cmd.Wait\<close> failed. The four fixed messages of the
  parser carry no argument in the source, so their constructors carry none.
\<close>

datatype error =
    AudioFileNotFound
  | TimecodesFileNotFound
  | CannotReadTimecodes
  | InvalidFormat
  | InvalidTimecode
  | NoTimecodesFound
  | TooManyTracks nat
  | MkdirFailed string
  | StartFailed string
  | ExitFailed string

text \<open>The error of \<^verbatim>\<open>time.Parse\<close>; \<^verbatim>\<open>run\<close> only tests it against \<^verbatim>\<open>nil\<close>.\<close>

datatype parse_error = ParseError

section \<open>The Go library functions the program calls\<close>

subsection \<open>Characters\<close>

definition space :: char where
  "space = CHR 0x20"

definition slash :: char where
  "slash = CHR 0x2F"

definition dot :: char where
  "dot = CHR 0x2E"

definition dquote :: char where
  "dquote = CHR 0x22"

definition isDigit :: "char \<Rightarrow> bool" where
  "isDigit c = (48 \<le> (of_char c :: nat) \<and> (of_char c :: nat) \<le> 57)"

definition digitVal :: "char \<Rightarrow> nat" where
  "digitVal c = (of_char c :: nat) - 48"

definition digitChar :: "nat \<Rightarrow> char" where
  "digitChar d = char_of (48 + d)"

subsection \<open>\<^verbatim>\<open>strings.Trim(s, " ")\<close> and \<^verbatim>\<open>strings.SplitAfterN(s, " ", 2)\<close>\<close>

text \<open>
  \<^verbatim>\<open>strings.Trim(s, cutset)\<close> removes every leading and trailing byte that occurs in
  the cutset; the program's cutset is the one-byte string \<^verbatim>\<open>" "\<close>.
\<close>

definition trimLeft :: "string \<Rightarrow> string" where
  "trimLeft s = dropWhile (\<lambda>c. c = space) s"

definition trimRight :: "string \<Rightarrow> string" where
  "trimRight s = rev (dropWhile (\<lambda>c. c = space) (rev s))"

definition strings_Trim :: "string \<Rightarrow> string" where
  "strings_Trim s = trimRight (trimLeft s)"

text \<open>
  \<^verbatim>\<open>strings.SplitAfterN(s, " ", 2)\<close>: when \<^verbatim>\<open>s\<close> holds a space, the two pieces are
  \<^verbatim>\<open>s\<close> up to and including its first space and the rest; otherwise the one piece
  \<^verbatim>\<open>s\<close>.
\<close>

definition strings_SplitAfterN :: "string \<Rightarrow> string list" where
  "strings_SplitAfterN s =
     (if space \<in> set s
      then [takeWhile (\<lambda>c. c \<noteq> space) s @ [space], tl (dropWhile (\<lambda>c. c \<noteq> space) s)]
      else [s])"

subsection \<open>\<^verbatim>\<open>time.Parse("15:04:05", value)\<close>\<close>

text \<open>
  \<^verbatim>\<open>getnum\<close> of package \<^verbatim>\<open>time\<close> reads one or two decimal digits; \<^verbatim>\<open>fixed\<close>
  demands two.
\<close>

fun getnum :: "string \<Rightarrow> bool \<Rightarrow> (nat \<times> string) option" where
  "getnum [] fixed = None"
| "getnum [c] fixed =
     (if \<not> isDigit c then None
      else if fixed then None
      else Some (digitVal c, []))"
| "getnum (c # d # s) fixed =
     (if \<not> isDigit c then None
      else if \<not> isDigit d then (if fixed then None else Some (digitVal c, d # s))
      else Some (digitVal c * 10 + digitVal d, s))"

text \<open>\<^verbatim>\<open>skip(value, ":")\<close>: the literal text between two layout elements.\<close>

fun skipColon :: "string \<Rightarrow> string option" where
  "skipColon [] = None"
| "skipColon (c # s) = (if c = CHR '':'' then Some s else None)"

definition commaOrPeriod :: "char \<Rightarrow> bool" where
  "commaOrPeriod c = (c = dot \<or> c = CHR '','')"

text \<open>
  After the seconds, \<^verbatim>\<open>time.Parse\<close> accepts a fractional second that the layout does
  not mention: a comma or period followed by at least one digit, and every digit after it.
\<close>

definition skipFraction :: "string \<Rightarrow> string" where
  "skipFraction s =
     (if 2 \<le> length s \<and> commaOrPeriod (s ! 0) \<and> isDigit (s ! 1)
      then dropWhile isDigit (drop 2 s)
      else s)"

text \<open>
  The layout \<^verbatim>\<open>"15:04:05"\<close> is the element \<^verbatim>\<open>stdHour\<close> (one or two digits, below 24),
  a colon, \<^verbatim>\<open>stdZeroMinute\<close> (two digits, below 60), a colon and \<^verbatim>\<open>stdZeroSecond\<close>
  (two digits, below 60); text left over after the last element is an error. The result is
  the hour, minute and second read.
\<close>

definition time_Parse :: "string \<Rightarrow> parse_error + (nat \<times> nat \<times> nat)" where
  "time_Parse s =
     (case getnum s False of
        None \<Rightarrow> Inl ParseError
      | Some (hour, s1) \<Rightarrow>
          if 24 \<le> hour then Inl ParseError
          else case skipColon s1 of
            None \<Rightarrow> Inl ParseError
          | Some s2 \<Rightarrow>
              (case getnum s2 True of
                 None \<Rightarrow> Inl ParseError
               | Some (minute, s3) \<Rightarrow>
                   if 60 \<le> minute then Inl ParseError
                   else case skipColon s3 of
                     None \<Rightarrow> Inl ParseError
                   | Some s4 \<Rightarrow>
                       (case getnum s4 True of
                          None \<Rightarrow> Inl ParseError
                        | Some (sec, s5) \<Rightarrow>
                            if 60 \<le> sec then Inl ParseError
                            else if skipFraction s5 \<noteq> [] then Inl ParseError
                            else Inr (hour, minute, sec))))"

subsection \<open>\<^verbatim>\<open>fmt.Sprintf\<close> on integers\<close>

fun digitsOf :: "nat \<Rightarrow> string" where
  "digitsOf n = (if n < 10 then [digitChar n] else digitsOf (n div 10) @ [digitChar (n mod 10)])"

declare digitsOf.simps [simp del]

text \<open>The verbs \<^verbatim>\<open>%v\<close> and \<^verbatim>\<open>%d\<close> on an \<^verbatim>\<open>int\<close>: the decimal digits, after a minus sign
  when negative.\<close>

definition fmtInt :: "int \<Rightarrow> string" where
  "fmtInt n = (if n < 0 then CHR ''-'' # digitsOf (nat (- n)) else digitsOf (nat n))"

text \<open>The verb \<^verbatim>\<open>%0wd\<close>: zeros are inserted after the sign until the field is
  \<^verbatim>\<open>w\<close> bytes wide; a longer number is not truncated.\<close>

definition fmtIntPad :: "nat \<Rightarrow> int \<Rightarrow> string" where
  "fmtIntPad w n =
     (if n < 0
      then CHR ''-'' # replicate (w - 1 - length (digitsOf (nat (- n)))) (CHR ''0'') @ digitsOf (nat (- n))
      else replicate (w - length (digitsOf (nat n))) (CHR ''0'') @ digitsOf (nat n))"

subsection \<open>\<^verbatim>\<open>filepath.Ext\<close>, \<^verbatim>\<open>path.Clean\<close> and \<^verbatim>\<open>path.Join\<close>\<close>

text \<open>
  \<^verbatim>\<open>filepath.Ext\<close> walks the path backwards to the last separator (a slash; the model
  is the Unix one) and returns the suffix that starts at the first dot it meets, or the
  empty string. The first argument is the part not yet visited, reversed; the second the
  part already passed.
\<close>

fun extLoop :: "string \<Rightarrow> string \<Rightarrow> string" where
  "extLoop [] seen = []"
| "extLoop (c # r) seen =
     (if c = slash then []
      else if c = dot then c # seen
      else extLoop r (c # seen))"

definition filepath_Ext :: "string \<Rightarrow> string" where
  "filepath_Ext p = extLoop (rev p) []"

text \<open>
  \<^verbatim>\<open>path.Clean\<close> reads the path left to right and writes the cleaned path into a
  buffer; \<^verbatim>\<open>dotdot\<close> is the buffer index a \<^verbatim>\<open>..\<close> element must not go below. A
  \<^verbatim>\<open>..\<close> element that can backtrack removes the buffer's last element with the slash
  before it.
\<close>

fun backtrackLoop :: "string \<Rightarrow> nat \<Rightarrow> nat \<Rightarrow> nat" where
  "backtrackLoop buf dotdot w =
     (if dotdot < w \<and> buf ! w \<noteq> slash then backtrackLoop buf dotdot (w - 1) else w)"

declare backtrackLoop.simps [simp del]

definition backtrack :: "string \<Rightarrow> nat \<Rightarrow> string" where
  "backtrack out dotdot = take (backtrackLoop out dotdot (length out - 1)) out"

function cleanLoop :: "bool \<Rightarrow> string \<Rightarrow> string \<Rightarrow> nat \<Rightarrow> string" where
  "cleanLoop rooted [] out dotdot = out"
| "cleanLoop rooted (c # p) out dotdot =
     (if c = slash then cleanLoop rooted p out dotdot
      else if c = dot \<and> (p = [] \<or> hd p = slash) then cleanLoop rooted p out dotdot
      else if c = dot \<and> hd p = dot \<and> (tl p = [] \<or> hd (tl p) = slash) then
        (if dotdot < length out then cleanLoop rooted (tl p) (backtrack out dotdot) dotdot
         else if \<not> rooted then
           cleanLoop rooted (tl p)
             ((if 0 < length out then out @ [slash] else out) @ [dot, dot])
             (length ((if 0 < length out then out @ [slash] else out) @ [dot, dot]))
         else cleanLoop rooted (tl p) out dotdot)
      else
        cleanLoop rooted (dropWhile (\<lambda>x. x \<noteq> slash) p)
          ((if rooted \<and> length out \<noteq> 1 \<or> \<not> rooted \<and> length out \<noteq> 0 then out @ [slash] else out)
             @ c # takeWhile (\<lambda>x. x \<noteq> slash) p)
          dotdot)"
  by pat_completeness auto
termination
  by (relation "measure (\<lambda>(rooted, p, out, dotdot). length p)")
     (auto simp add: length_dropWhile_le less_Suc_eq_le)

declare cleanLoop.simps [simp del]

definition path_Clean :: "string \<Rightarrow> string" where
  "path_Clean p =
     (if p = [] then [dot]
      else if hd p = slash
        then (let out = cleanLoop True (tl p) [slash] 1 in if out = [] then [dot] else out)
        else (let out = cleanLoop False p [] 0 in if out = [] then [dot] else out))"

text \<open>\<^verbatim>\<open>path.Join\<close>: the non-empty leading elements and all later ones, with a slash
  between them, cleaned; the empty string when every element is empty.\<close>

fun joinLoop :: "string list \<Rightarrow> string \<Rightarrow> string" where
  "joinLoop [] buf = buf"
| "joinLoop (e # es) buf =
     (if 0 < length buf \<or> e \<noteq> []
      then joinLoop es ((if 0 < length buf then buf @ [slash] else buf) @ e)
      else joinLoop es buf)"

definition path_Join :: "string list \<Rightarrow> string" where
  "path_Join elems =
     (if sum_list (map length elems) = 0 then [] else path_Clean (joinLoop elems []))"

section \<open>The program\<close>

subsection \<open>\<^verbatim>\<open>parseTime\<close>\<close>

definition parseTime :: "string \<Rightarrow> parse_error option" where
  "parseTime t = (case time_Parse (strings_Trim t) of Inl err \<Rightarrow> Some err | Inr _ \<Rightarrow> None)"

subsection \<open>\<^verbatim>\<open>outputFilename\<close>, \<^verbatim>\<open>ffmpegArgs\<close>, \<^verbatim>\<open>eyeD3Args\<close>\<close>

text \<open>
  The last path element, \<^verbatim>\<open>v\<close> in the source: the format is \<^verbatim>\<open>"%02d - %v%v"\<close>, or
  \<^verbatim>\<open>"%03d - %v%v"\<close> when \<^verbatim>\<open>Total > 99\<close>.
\<close>

definition leafName :: "track \<Rightarrow> string \<Rightarrow> string" where
  "leafName t audioFile =
     fmtIntPad (if Total t > 99 then 3 else 2) (Number t) @ '' - '' @ Title t @ filepath_Ext audioFile"

definition outputFilename :: "track \<Rightarrow> string \<Rightarrow> string" where
  "outputFilename t audioFile = path_Join [Artist t, Album t, leafName t audioFile]"

definition ffmpegArgs :: "track \<Rightarrow> string \<Rightarrow> string list" where
  "ffmpegArgs t audioFile =
     (let args = [''-nostdin'', ''-y'', ''-loglevel'', ''error''];
          args = (if End t = [] then args @ [''-ss'', Start t]
                  else args @ [''-ss'', Start t, ''-to'', End t]);
          args = args @ [''-i'', audioFile, ''-vn'', ''-c'', ''copy'', ''-f'', ''mp3'',
                         outputFilename t audioFile]
      in args)"

text \<open>\<^verbatim>\<open>fmt.Sprintf("%v=\"%v\"", flag, value)\<close> and \<^verbatim>\<open>fmt.Sprintf("%v=%v", flag, n)\<close>.\<close>

definition sprintfQuoted :: "string \<Rightarrow> string \<Rightarrow> string" where
  "sprintfQuoted flag v = flag @ ''='' @ [dquote] @ v @ [dquote]"

definition sprintfBare :: "string \<Rightarrow> int \<Rightarrow> string" where
  "sprintfBare flag n = flag @ ''='' @ fmtInt n"

definition eyeD3Args :: "track \<Rightarrow> string \<Rightarrow> string list" where
  "eyeD3Args t audioFile =
     [sprintfQuoted ''--artist'' (Artist t),
      sprintfQuoted ''--album-artist'' (Artist t),
      sprintfQuoted ''--album'' (Album t),
      sprintfQuoted ''--title'' (Title t),
      sprintfBare ''--track'' (Number t),
      sprintfBare ''--track-total'' (Total t),
      outputFilename t audioFile]"

subsection \<open>The outside world\<close>

text \<open>
  What the program asks of the operating system, over a world state \<^typ>\<open>'w\<close> the model
  knows nothing about: whether \<^verbatim>\<open>os.Stat\<close> succeeds on a path; the lines a
  \<^verbatim>\<open>bufio.Scanner\<close> yields from a file (\<open>None\<close> when \<^verbatim>\<open>os.Open\<close> fails; the
  scanner cuts at newlines, and \<^verbatim>\<open>run\<close> never looks at the scanner's error, so a
  scan that stops early is the end of the file for it); \<^verbatim>\<open>os.MkdirAll\<close>; and a child
  process, started from a program name and an argument vector with no shell between, which
  fails to start, ends in failure with what it wrote to its standard error, or ends well.
\<close>

datatype proc_result = StartError string | WaitError string | Done

record 'w sys =
  statOk :: "'w \<Rightarrow> string \<Rightarrow> bool"
  scanFile :: "'w \<Rightarrow> string \<Rightarrow> string list option"
  mkdirAll :: "'w \<Rightarrow> string \<Rightarrow> string option \<times> 'w"
  runProcess :: "'w \<Rightarrow> string \<Rightarrow> string list \<Rightarrow> proc_result \<times> 'w"

text \<open>The trace of what the program did to the world, in order: a line printed, a
  directory creation and a process invocation with its argument vector.\<close>

datatype event = Printed string | MkdirAll string | Exec string "string list"

subsection \<open>\<^verbatim>\<open>execCommand\<close>\<close>

definition execCommand ::
  "'w sys \<Rightarrow> string \<Rightarrow> string list \<Rightarrow> 'w \<times> event list \<Rightarrow> error option \<times> 'w \<times> event list" where
  "execCommand sys c arg st =
     (case st of (w, tr) \<Rightarrow>
        (case runProcess sys w c arg of
           (StartError m, w') \<Rightarrow> (Some (StartFailed m), w', tr @ [Exec c arg])
         | (WaitError stderr, w') \<Rightarrow> (Some (ExitFailed stderr), w', tr @ [Exec c arg])
         | (Done, w') \<Rightarrow> (None, w', tr @ [Exec c arg])))"

subsection \<open>\<^verbatim>\<open>run\<close>: reading the timecodes\<close>

text \<open>
  The body of the scanning loop on a non-empty line. The slice \<^verbatim>\<open>tc\<close> has two
  elements once the length test has passed; the entry appended to \<^verbatim>\<open>timecodes\<close> is
  modelled as the pair of them (the struct \<^verbatim>\<open>timecode\<close> of the source is declared and
  never used).
\<close>

definition scanLine :: "string \<Rightarrow> error + (string \<times> string)" where
  "scanLine text =
     (let tc = strings_SplitAfterN text in
      if length tc < 2 then Inl InvalidFormat
      else case parseTime (tc ! 0) of
        Some err \<Rightarrow> Inl InvalidTimecode
      | None \<Rightarrow> Inr (strings_Trim (tc ! 0), strings_Trim (tc ! 1)))"

fun scanLoop :: "string list \<Rightarrow> (string \<times> string) list \<Rightarrow> error + (string \<times> string) list" where
  "scanLoop [] timecodes = Inr timecodes"
| "scanLoop (text # rest) timecodes =
     (if text = [] then scanLoop rest timecodes
      else case scanLine text of
        Inl err \<Rightarrow> Inl err
      | Inr tc \<Rightarrow> scanLoop rest (timecodes @ [tc]))"

definition parseTimecodes :: "string list \<Rightarrow> error + (string \<times> string) list" where
  "parseTimecodes lines =
     (case scanLoop lines [] of
        Inl err \<Rightarrow> Inl err
      | Inr timecodes \<Rightarrow>
          if length timecodes = 0 then Inl NoTimecodesFound
          else if length timecodes > 999 then Inl (TooManyTracks (length timecodes))
          else Inr timecodes)"

subsection \<open>\<^verbatim>\<open>run\<close>: building the tracks\<close>

definition newTrack :: "(string \<times> string) list \<Rightarrow> string \<Rightarrow> string \<Rightarrow> nat \<Rightarrow> track" where
  "newTrack timecodes artist album i =
     \<lparr>Number = int i + 1,
      Total = int (length timecodes),
      Title = snd (timecodes ! i),
      Start = fst (timecodes ! i),
      End = [],
      Artist = artist,
      Album = album\<rparr>"

definition setEnd :: "track list \<Rightarrow> nat \<Rightarrow> string \<Rightarrow> track list" where
  "setEnd tracks i e = tracks[i := (tracks ! i)\<lparr>End := e\<rparr>]"

text \<open>One iteration of \<^verbatim>\<open>for i := range timecodes\<close>.\<close>

definition segmentStep ::
  "(string \<times> string) list \<Rightarrow> string \<Rightarrow> string \<Rightarrow> track list \<Rightarrow> nat \<Rightarrow> track list" where
  "segmentStep timecodes artist album tracks i =
     (let tracks1 = tracks @ [newTrack timecodes artist album i];
          tracks2 = (if i = 1 then setEnd tracks1 (i - 1) (fst (timecodes ! i)) else tracks1);
          tracks3 = (if 0 < i \<and> int i < int (length timecodes) - 1
                     then setEnd tracks2 i (fst (timecodes ! (i + 1))) else tracks2)
      in tracks3)"

definition segmentTracks :: "(string \<times> string) list \<Rightarrow> string \<Rightarrow> string \<Rightarrow> track list" where
  "segmentTracks timecodes artist album =
     foldl (segmentStep timecodes artist album) [] [0..<length timecodes]"

subsection \<open>\<^verbatim>\<open>run\<close>: cutting and tagging\<close>

definition progressLine :: "track \<Rightarrow> string \<Rightarrow> string" where
  "progressLine t audioFile =
     ''processing track '' @ [dquote] @ outputFilename t audioFile @ [dquote] @ [CHR 0x0A]"

fun processTracks ::
  "'w sys \<Rightarrow> string \<Rightarrow> track list \<Rightarrow> 'w \<times> event list \<Rightarrow> error option \<times> 'w \<times> event list" where
  "processTracks sys audioFile [] st = (None, st)"
| "processTracks sys audioFile (t # ts) st =
     (case st of (w, tr) \<Rightarrow>
        (case execCommand sys ''ffmpeg'' (ffmpegArgs t audioFile)
                (w, tr @ [Printed (progressLine t audioFile)]) of
           (Some err, st1) \<Rightarrow> (Some err, st1)
         | (None, st1) \<Rightarrow>
             (case execCommand sys ''eyed3'' (eyeD3Args t audioFile) st1 of
                (Some err, st2) \<Rightarrow> (Some err, st2)
              | (None, st2) \<Rightarrow> processTracks sys audioFile ts st2)))"

subsection \<open>\<^verbatim>\<open>run\<close>\<close>

definition run ::
  "'w sys \<Rightarrow> string \<Rightarrow> string \<Rightarrow> string \<Rightarrow> string \<Rightarrow> 'w \<Rightarrow> error option \<times> 'w \<times> event list" where
  "run sys audioFile timecodesFile artist album w =
     (if \<not> statOk sys w audioFile then (Some AudioFileNotFound, w, [])
      else if \<not> statOk sys w timecodesFile then (Some TimecodesFileNotFound, w, [])
      else case scanFile sys w timecodesFile of
        None \<Rightarrow> (Some CannotReadTimecodes, w, [])
      | Some lines \<Rightarrow>
          (case parseTimecodes lines of
             Inl err \<Rightarrow> (Some err, w, [])
           | Inr timecodes \<Rightarrow>
               (case mkdirAll sys w (path_Join [artist, album]) of
                  (Some m, w1) \<Rightarrow> (Some (MkdirFailed m), w1, [MkdirAll (path_Join [artist, album])])
                | (None, w1) \<Rightarrow>
                    processTracks sys audioFile (segmentTracks timecodes artist album)
                      (w1, [MkdirAll (path_Join [artist, album])]))))"

section \<open>Vocabulary of the properties\<close>

text \<open>The number a string of decimal digits denotes.\<close>

definition decimalValue :: "string \<Rightarrow> nat" where
  "decimalValue s = foldl (\<lambda>a c. a * 10 + digitVal c) 0 s"



text \<open>
  A world for the examples. Its state counts the processes invoked so far; every file
  exists, the timecodes file holds the given lines, directory creation succeeds, and the
  invocation made in state \<open>k\<close> ends as \<open>outcome k\<close> says.
\<close>

definition exampleWorld :: "string list \<Rightarrow> (nat \<Rightarrow> proc_result) \<Rightarrow> nat sys" where
  "exampleWorld lines outcome =
     \<lparr>statOk = (\<lambda>w p. True),
      scanFile = (\<lambda>w p. Some lines),
      mkdirAll = (\<lambda>w p. (None, w)),
      runProcess = (\<lambda>w c arg. (outcome w, Suc w))\<rparr>"

text \<open>
  The words of the specification about the timecode file, for comparison with the code.
  White space is the space, the tab and the other ASCII white space bytes; trimming removes
  it at both ends; a line splits at its first white space into the time token and the
  trimmed rest; a valid time is two digits of hours (00 to 23), a colon, two digits of
  minutes, a colon and two digits of seconds (both 00 to 59).
\<close>

definition spec_isWhitespace :: "char \<Rightarrow> bool" where
  "spec_isWhitespace c = (c \<in> set [CHR 0x20, CHR 0x09, CHR 0x0A, CHR 0x0B, CHR 0x0C, CHR 0x0D])"

definition spec_trim :: "string \<Rightarrow> string" where
  "spec_trim s = rev (dropWhile spec_isWhitespace (rev (dropWhile spec_isWhitespace s)))"

definition spec_HHMMSS :: "string \<Rightarrow> bool" where
  "spec_HHMMSS s =
     (length s = 8
      \<and> isDigit (s ! 0) \<and> isDigit (s ! 1) \<and> digitVal (s ! 0) * 10 + digitVal (s ! 1) < 24
      \<and> s ! 2 = CHR '':''
      \<and> isDigit (s ! 3) \<and> isDigit (s ! 4) \<and> digitVal (s ! 3) * 10 + digitVal (s ! 4) < 60
      \<and> s ! 5 = CHR '':''
      \<and> isDigit (s ! 6) \<and> isDigit (s ! 7) \<and> digitVal (s ! 6) * 10 + digitVal (s ! 7) < 60)"

definition spec_splitLine :: "string \<Rightarrow> string \<times> string" where
  "spec_splitLine text =
     (takeWhile (\<lambda>c. \<not> spec_isWhitespace c) text,
      spec_trim (dropWhile (\<lambda>c. \<not> spec_isWhitespace c) text))"

section \<open>The segmenter\<close>

lemma length_setEnd [simp]: "length (setEnd tracks i e) = length tracks"
  by (simp add: setEnd_def)

lemma length_segmentStep [simp]:
  "length (segmentStep timecodes artist album tracks i) = Suc (length tracks)"
  by (simp add: segmentStep_def Let_def)

text \<open>
  The loop invariant: after the iterations \<open>0, \<dots>, k - 1\<close> the slice holds \<open>k\<close> tracks;
  track 0 has its end as soon as the second iteration has run, every later track that is
  not the last one of the whole list got its end in its own iteration.
\<close>

lemma segment_prefix:
  "k \<le> length timecodes \<Longrightarrow>
   foldl (segmentStep timecodes artist album) [] [0..<k] =
   map (\<lambda>i. (newTrack timecodes artist album i)
          \<lparr>End := (if i = 0 then (if 2 \<le> k then fst (timecodes ! 1) else [])
                   else if i + 1 < length timecodes then fst (timecodes ! (i + 1)) else [])\<rparr>)
       [0..<k]"
  (is "_ \<Longrightarrow> ?lhs k = map (?f k) [0..<k]")
proof (induction k)
  case 0
  show ?case by simp
next
  case (Suc k)
  then have IH: "?lhs k = map (?f k) [0..<k]" and k: "k < length timecodes"
    by simp_all
  have "?lhs (Suc k) = segmentStep timecodes artist album (map (?f k) [0..<k]) k"
    by (simp add: IH)
  also have "\<dots> = map (?f (Suc k)) [0..<Suc k]"
  proof (rule nth_equalityI)
    show "length (segmentStep timecodes artist album (map (?f k) [0..<k]) k)
          = length (map (?f (Suc k)) [0..<Suc k])"
      by simp
  next
    fix i
    assume "i < length (segmentStep timecodes artist album (map (?f k) [0..<k]) k)"
    then have i: "i < Suc k" by simp
    show "segmentStep timecodes artist album (map (?f k) [0..<k]) k ! i
          = map (?f (Suc k)) [0..<Suc k] ! i"
      using i k
      by (auto simp add: segmentStep_def setEnd_def Let_def nth_append newTrack_def
            nth_list_update simp del: upt_Suc)
  qed
  finally show ?case .
qed

lemma segmentTracks_map:
  "segmentTracks timecodes artist album =
   map (\<lambda>i. \<lparr>Number = int i + 1,
             Total = int (length timecodes),
             Title = snd (timecodes ! i),
             Start = fst (timecodes ! i),
             End = (if i + 1 < length timecodes then fst (timecodes ! (i + 1)) else []),
             Artist = artist,
             Album = album\<rparr>)
       [0..<length timecodes]"
  unfolding segmentTracks_def
  by (subst segment_prefix) (auto simp add: newTrack_def)

lemma length_segmentTracks [simp]:
  "length (segmentTracks timecodes artist album) = length timecodes"
  by (simp add: segmentTracks_map)

lemma nth_segmentTracks:
  "i < length timecodes \<Longrightarrow>
   segmentTracks timecodes artist album ! i =
     \<lparr>Number = int i + 1,
      Total = int (length timecodes),
      Title = snd (timecodes ! i),
      Start = fst (timecodes ! i),
      End = (if i + 1 < length timecodes then fst (timecodes ! (i + 1)) else []),
      Artist = artist,
      Album = album\<rparr>"
  by (simp add: segmentTracks_map)

text \<open>
  Claim C1. A timecode list of length \<open>n \<ge> 1\<close> gives exactly \<open>n\<close> tracks; the track at
  index \<open>i\<close> has number \<open>i + 1\<close>, total \<open>n\<close> and starts at the time of entry \<open>i\<close>; the end
  of every track but the last is the start of the next one, and the last track (the only one
  when \<open>n = 1\<close>) has the empty end, the source's "read to end of file".
\<close>

theorem segmentTracks_contiguous:
  assumes "1 \<le> length timecodes"
  shows "length (segmentTracks timecodes artist album) = length timecodes
       \<and> (\<forall>i < length timecodes.
            Number (segmentTracks timecodes artist album ! i) = int i + 1
          \<and> Total (segmentTracks timecodes artist album ! i) = int (length timecodes)
          \<and> Start (segmentTracks timecodes artist album ! i) = fst (timecodes ! i))
       \<and> (\<forall>i. i + 1 < length timecodes \<longrightarrow>
            End (segmentTracks timecodes artist album ! i)
              = Start (segmentTracks timecodes artist album ! (i + 1)))
       \<and> End (segmentTracks timecodes artist album ! (length timecodes - 1)) = []"
  using assms by (auto simp add: nth_segmentTracks)

theorem segmentTracks_contiguous_witness:
  "1 \<le> length [(''00:00:00'', ''Intro''), (''00:03:15'', ''Track Two''), (''00:07:40'', ''Coda'')]
   \<and> length (segmentTracks [(''00:00:00'', ''Intro''), (''00:03:15'', ''Track Two''),
                             (''00:07:40'', ''Coda'')] ''A'' ''B'') = 3
   \<and> End (segmentTracks [(''00:00:00'', ''Intro''), (''00:03:15'', ''Track Two''),
                          (''00:07:40'', ''Coda'')] ''A'' ''B'' ! 0) = ''00:03:15''
   \<and> End (segmentTracks [(''00:00:00'', ''Intro''), (''00:03:15'', ''Track Two''),
                          (''00:07:40'', ''Coda'')] ''A'' ''B'' ! 1) = ''00:07:40''
   \<and> End (segmentTracks [(''00:00:00'', ''Intro''), (''00:03:15'', ''Track Two''),
                          (''00:07:40'', ''Coda'')] ''A'' ''B'' ! 2) = []"
  using segmentTracks_contiguous
    [of "[(''00:00:00'', ''Intro''), (''00:03:15'', ''Track Two''), (''00:07:40'', ''Coda'')]"
        "''A''" "''B''"]
  by (simp add: nth_segmentTracks)

section \<open>Decimal formatting\<close>







lemma digitsOf_nonempty: "digitsOf n \<noteq> []"
  by (subst digitsOf.simps) simp








section \<open>Extensions and path joining\<close>







section \<open>The output file name\<close>







section \<open>The cut request\<close>




section \<open>The tag request\<close>





section \<open>The orchestrator\<close>

lemma execCommand_eq:
  "execCommand sys c arg (w, tr) =
     ((case fst (runProcess sys w c arg) of
         StartError m \<Rightarrow> Some (StartFailed m)
       | WaitError m \<Rightarrow> Some (ExitFailed m)
       | Done \<Rightarrow> None),
      snd (runProcess sys w c arg), tr @ [Exec c arg])"
  by (simp add: execCommand_def split: prod.splits proc_result.splits)

lemma execCommand_None:
  "fst (execCommand sys c arg (w, tr)) = None \<longleftrightarrow> fst (runProcess sys w c arg) = Done"
  by (simp add: execCommand_eq split: proc_result.splits)

lemma execCommand_error:
  "fst (execCommand sys c arg st) = Some e \<Longrightarrow> (\<exists>m. e = StartFailed m) \<or> (\<exists>m. e = ExitFailed m)"
  by (cases st) (auto simp add: execCommand_eq split: proc_result.splits)

lemma processTracks_Cons:
  "processTracks sys a (t # ts) (w, tr) =
     (if fst (runProcess sys w ''ffmpeg'' (ffmpegArgs t a)) \<noteq> Done
      then execCommand sys ''ffmpeg'' (ffmpegArgs t a) (w, tr @ [Printed (progressLine t a)])
      else if fst (runProcess sys (snd (runProcess sys w ''ffmpeg'' (ffmpegArgs t a)))
                     ''eyed3'' (eyeD3Args t a)) \<noteq> Done
      then execCommand sys ''eyed3'' (eyeD3Args t a)
             (snd (runProcess sys w ''ffmpeg'' (ffmpegArgs t a)),
              tr @ [Printed (progressLine t a), Exec ''ffmpeg'' (ffmpegArgs t a)])
      else processTracks sys a ts
             (snd (runProcess sys (snd (runProcess sys w ''ffmpeg'' (ffmpegArgs t a)))
                     ''eyed3'' (eyeD3Args t a)),
              tr @ [Printed (progressLine t a), Exec ''ffmpeg'' (ffmpegArgs t a),
                    Exec ''eyed3'' (eyeD3Args t a)]))"
  by (simp add: execCommand_eq split: proc_result.splits)




lemma processTracks_error:
  "fst (processTracks sys a ts st) = Some e \<Longrightarrow> (\<exists>m. e = StartFailed m) \<or> (\<exists>m. e = ExitFailed m)"
proof (induction ts arbitrary: st)
  case Nil
  then show ?case by simp
next
  case (Cons t ts)
  obtain w tr where st: "st = (w, tr)" by (cases st)
  from Cons.prems show ?case
    unfolding st processTracks_Cons
    by (auto split: if_splits dest: execCommand_error Cons.IH)
qed





text \<open>
  Claim C9. When \<^verbatim>\<open>run\<close> returns one of the errors of input validation, reading or
  parsing, the trace is empty and the world is unchanged: no directory creation was
  attempted and no process was invoked.
\<close>

theorem run_validation_before_effects:
  assumes "run sys audioFile timecodesFile artist album w = (Some err, w', tr)"
    and "err \<in> {AudioFileNotFound, TimecodesFileNotFound, CannotReadTimecodes, InvalidFormat,
                 InvalidTimecode, NoTimecodesFound} \<or> (\<exists>n. err = TooManyTracks n)"
  shows "tr = [] \<and> w' = w"
proof -
  have no: "fst (processTracks sys audioFile ts st) \<noteq> Some err" for ts st
    using processTracks_error [of sys audioFile ts st err] assms(2) by auto
  have no': "processTracks sys audioFile ts st \<noteq> (Some err, w', tr)" for ts st
    using no [of ts st] by auto
  from assms show ?thesis
    by (auto simp add: run_def no' split: if_splits option.splits sum.splits prod.splits)
qed

theorem run_validation_before_effects_witness:
  "run (exampleWorld [''00:00:00 Intro'', ''00:03:15''] (\<lambda>k. Done)) ''song.flac'' ''tc.txt'' ''A'' ''B'' 0
     = (Some InvalidFormat, 0, [])"
proof -
  let ?sys = "exampleWorld [''00:00:00 Intro'', ''00:03:15''] (\<lambda>k. Done)"
  have p: "parseTimecodes [''00:00:00 Intro'', ''00:03:15''] = Inl InvalidFormat"
    by code_simp
  have fst_run: "fst (run ?sys ''song.flac'' ''tc.txt'' ''A'' ''B'' 0) = Some InvalidFormat"
    by (simp add: run_def exampleWorld_def p)
  then have r: "run ?sys ''song.flac'' ''tc.txt'' ''A'' ''B'' 0
      = (Some InvalidFormat, fst (snd (run ?sys ''song.flac'' ''tc.txt'' ''A'' ''B'' 0)),
         snd (snd (run ?sys ''song.flac'' ''tc.txt'' ''A'' ''B'' 0)))"
    by (metis prod.collapse)
  from run_validation_before_effects [OF r] show ?thesis
    using r by simp
qed

section \<open>Trimming and the scanning loop\<close>

lemma takeWhile_eq_replicate:
  "takeWhile (\<lambda>c. c = x) s = replicate (length (takeWhile (\<lambda>c. c = x) s)) x"
  by (induction s) auto

lemma dropWhile_replicate_append:
  "(t = [] \<or> hd t \<noteq> x) \<Longrightarrow> dropWhile (\<lambda>c. c = x) (replicate a x @ t) = t"
proof (induction a)
  case 0
  then show ?case by (cases t) auto
next
  case (Suc a)
  then show ?case by simp
qed

lemma trimLeft_decomp: "\<exists>a. s = replicate a space @ trimLeft s"
proof -
  have "s = takeWhile (\<lambda>c. c = space) s @ dropWhile (\<lambda>c. c = space) s"
    by simp
  then show ?thesis
    unfolding trimLeft_def using takeWhile_eq_replicate [of space s] by metis
qed

lemma trimRight_decomp: "\<exists>b. s = trimRight s @ replicate b space"
proof -
  obtain b where "rev s = replicate b space @ dropWhile (\<lambda>c. c = space) (rev s)"
    using trimLeft_decomp [of "rev s"] unfolding trimLeft_def by blast
  then have "rev (rev s) = rev (replicate b space @ dropWhile (\<lambda>c. c = space) (rev s))"
    by simp
  then have "s = trimRight s @ replicate b space"
    by (simp add: trimRight_def)
  then show ?thesis by blast
qed

lemma trimLeft_hd: "trimLeft s = [] \<or> hd (trimLeft s) \<noteq> space"
  unfolding trimLeft_def using hd_dropWhile [of "\<lambda>c. c = space" s] by blast

lemma trimRight_last: "trimRight s = [] \<or> last (trimRight s) \<noteq> space"
proof (cases "trimRight s = []")
  case False
  then have ne: "dropWhile (\<lambda>c. c = space) (rev s) \<noteq> []"
    by (simp add: trimRight_def)
  have "last (trimRight s) = hd (dropWhile (\<lambda>c. c = space) (rev s))"
    using ne by (simp add: trimRight_def last_rev)
  then show ?thesis
    using hd_dropWhile [OF ne] by simp
qed simp

lemma strings_Trim_decomp:
  "\<exists>a b. s = replicate a space @ strings_Trim s @ replicate b space"
proof -
  obtain a where a: "s = replicate a space @ trimLeft s"
    using trimLeft_decomp by blast
  obtain b where b: "trimLeft s = trimRight (trimLeft s) @ replicate b space"
    using trimRight_decomp by blast
  have "s = replicate a space @ strings_Trim s @ replicate b space"
    unfolding strings_Trim_def using a b by metis
  then show ?thesis by blast
qed

lemma strings_Trim_ends:
  "strings_Trim s = [] \<or> (hd (strings_Trim s) \<noteq> space \<and> last (strings_Trim s) \<noteq> space)"
proof (cases "strings_Trim s = []")
  case False
  obtain b where b: "trimLeft s = strings_Trim s @ replicate b space"
    using trimRight_decomp [of "trimLeft s"] unfolding strings_Trim_def by blast
  with False have "hd (trimLeft s) = hd (strings_Trim s)" "trimLeft s \<noteq> []"
    by (metis hd_append2, metis append_is_Nil_conv)
  then have "hd (strings_Trim s) \<noteq> space"
    using trimLeft_hd [of s] by auto
  moreover have "last (strings_Trim s) \<noteq> space"
    using False trimRight_last [of "trimLeft s"] unfolding strings_Trim_def by auto
  ultimately show ?thesis by blast
qed simp

lemma strings_Trim_padded:
  assumes "t = [] \<or> (hd t \<noteq> space \<and> last t \<noteq> space)"
  shows "strings_Trim (replicate a space @ t @ replicate b space) = t"
proof (cases "t = []")
  case True
  have "dropWhile (\<lambda>c. c = space) (replicate n space) = []" for n
    by (induction n) auto
  then show ?thesis
    using True by (simp add: strings_Trim_def trimLeft_def trimRight_def flip: replicate_add)
next
  case False
  with assms have h: "hd t \<noteq> space" and l: "last t \<noteq> space" by auto
  have "trimLeft (replicate a space @ t @ replicate b space) = t @ replicate b space"
    unfolding trimLeft_def
    using dropWhile_replicate_append [of "t @ replicate b space" space a] False h by simp
  moreover have "trimRight (t @ replicate b space) = t"
  proof -
    have "rev (t @ replicate b space) = replicate b space @ rev t" by simp
    moreover have "dropWhile (\<lambda>c. c = space) (replicate b space @ rev t) = rev t"
      using dropWhile_replicate_append [of "rev t" space b] False l by (simp add: hd_rev)
    ultimately show ?thesis by (simp add: trimRight_def)
  qed
  ultimately show ?thesis by (simp add: strings_Trim_def)
qed

lemma no_space_ends:
  assumes "space \<notin> set s"
  shows "s = [] \<or> (hd s \<noteq> space \<and> last s \<noteq> space)"
proof (cases "s = []")
  case False
  then have "hd s \<in> set s" and "last s \<in> set s" by simp_all
  with assms show ?thesis by metis
qed simp

lemma strings_Trim_token:
  assumes "space \<notin> set s"
  shows "strings_Trim (s @ [space]) = s"
  using strings_Trim_padded [OF no_space_ends [OF assms], of 0 1] by simp

lemma strings_Trim_no_space:
  assumes "space \<notin> set s"
  shows "strings_Trim s = s"
  using strings_Trim_padded [OF no_space_ends [OF assms], of 0 0] by simp

lemma strings_Trim_idem: "strings_Trim (strings_Trim s) = strings_Trim s"
  using strings_Trim_padded [OF strings_Trim_ends, of 0 s 0] by simp

lemma scanLine_eq:
  "scanLine text =
     (if space \<notin> set text then Inl InvalidFormat
      else if parseTime (takeWhile (\<lambda>c. c \<noteq> space) text) \<noteq> None then Inl InvalidTimecode
      else Inr (takeWhile (\<lambda>c. c \<noteq> space) text,
                strings_Trim (tl (dropWhile (\<lambda>c. c \<noteq> space) text))))"
proof -
  have ns: "space \<notin> set (takeWhile (\<lambda>c. c \<noteq> space) text)"
    by (auto dest: set_takeWhileD)
  have p: "parseTime (takeWhile (\<lambda>c. c \<noteq> space) text @ [space])
           = parseTime (takeWhile (\<lambda>c. c \<noteq> space) text)"
    by (simp add: parseTime_def strings_Trim_token [OF ns] strings_Trim_no_space [OF ns])
  show ?thesis
    by (auto simp add: scanLine_def strings_SplitAfterN_def Let_def p strings_Trim_token [OF ns]
          split: option.splits)
qed


lemma scanLoop_acc:
  "scanLoop ls acc = (case scanLoop ls [] of Inl e \<Rightarrow> Inl e | Inr r \<Rightarrow> Inr (acc @ r))"
proof (induction ls arbitrary: acc)
  case Nil
  show ?case by simp
next
  case (Cons l ls)
  show ?case
  proof (cases "l = []")
    case True
    then show ?thesis using Cons.IH [of acc] by simp
  next
    case False
    show ?thesis
    proof (cases "scanLine l")
      case (Inl e)
      with False show ?thesis by simp
    next
      case (Inr tc)
      with False show ?thesis
        using Cons.IH [of "acc @ [tc]"] Cons.IH [of "[tc]"]
        by (simp split: sum.splits)
    qed
  qed
qed

lemma scanLoop_find:
  "scanLoop ls [] =
     (case find (\<lambda>l. space \<notin> set l \<or> parseTime (takeWhile (\<lambda>c. c \<noteq> space) l) \<noteq> None)
             (filter (\<lambda>l. l \<noteq> []) ls) of
        Some l \<Rightarrow> Inl (if space \<notin> set l then InvalidFormat else InvalidTimecode)
      | None \<Rightarrow>
          Inr (map (\<lambda>l. (takeWhile (\<lambda>c. c \<noteq> space) l,
                         strings_Trim (tl (dropWhile (\<lambda>c. c \<noteq> space) l))))
                 (filter (\<lambda>l. l \<noteq> []) ls)))"
proof (induction ls)
  case Nil
  show ?case by simp
next
  case (Cons l ls)
  show ?case
  proof (cases "l = []")
    case True
    then show ?thesis using Cons.IH by (simp split: option.splits)
  next
    case False
    show ?thesis
    proof (cases "space \<notin> set l \<or> parseTime (takeWhile (\<lambda>c. c \<noteq> space) l) \<noteq> None")
      case True
      with False show ?thesis by (auto simp add: scanLine_eq)
    next
      case ok: False
      then have sl: "scanLine l = Inr (takeWhile (\<lambda>c. c \<noteq> space) l,
                       strings_Trim (tl (dropWhile (\<lambda>c. c \<noteq> space) l)))"
        by (simp add: scanLine_eq)
      show ?thesis
        using False ok Cons.IH
        by (simp add: sl scanLoop_acc [of ls "[_]"] split: option.splits)
    qed
  qed
qed

lemma find_None_all: "find P xs = None \<longleftrightarrow> (\<forall>x \<in> set xs. \<not> P x)"
  by (induction xs) auto

lemma parseTimecodes_eq:
  "parseTimecodes lines =
     (case find (\<lambda>l. space \<notin> set l \<or> parseTime (takeWhile (\<lambda>c. c \<noteq> space) l) \<noteq> None)
             (filter (\<lambda>l. l \<noteq> []) lines) of
        Some l \<Rightarrow> Inl (if space \<notin> set l then InvalidFormat else InvalidTimecode)
      | None \<Rightarrow>
          if filter (\<lambda>l. l \<noteq> []) lines = [] then Inl NoTimecodesFound
          else if length (filter (\<lambda>l. l \<noteq> []) lines) > 999
            then Inl (TooManyTracks (length (filter (\<lambda>l. l \<noteq> []) lines)))
          else Inr (map (\<lambda>l. (takeWhile (\<lambda>c. c \<noteq> space) l,
                              strings_Trim (tl (dropWhile (\<lambda>c. c \<noteq> space) l))))
                      (filter (\<lambda>l. l \<noteq> []) lines)))"
  by (simp add: parseTimecodes_def scanLoop_find split: option.splits)

section \<open>The time layout\<close>

lemma getnum_fixed:
  "getnum s True = Some (n, r) \<longleftrightarrow>
     (\<exists>c d. s = c # d # r \<and> isDigit c \<and> isDigit d \<and> n = digitVal c * 10 + digitVal d)"
  by (cases "(s, True)" rule: getnum.cases) auto

lemma getnum_free:
  "getnum s False = Some (n, r) \<longleftrightarrow>
     (\<exists>c. s = c # r \<and> isDigit c \<and> n = digitVal c \<and> (r = [] \<or> \<not> isDigit (hd r)))
   \<or> (\<exists>c d. s = c # d # r \<and> isDigit c \<and> isDigit d \<and> n = digitVal c * 10 + digitVal d)"
  by (cases "(s, False)" rule: getnum.cases) auto

lemma skipColon_Some: "skipColon s = Some r \<longleftrightarrow> s = CHR '':'' # r"
  by (cases s) auto

lemma skipFraction_Nil:
  "skipFraction s = [] \<longleftrightarrow>
     s = [] \<or> (\<exists>c ds. s = c # ds \<and> commaOrPeriod c \<and> ds \<noteq> [] \<and> (\<forall>d \<in> set ds. isDigit d))"
proof (cases s)
  case Nil
  then show ?thesis by (simp add: skipFraction_def)
next
  case (Cons c ds)
  show ?thesis
  proof (cases ds)
    case Nil
    with Cons show ?thesis by (simp add: skipFraction_def)
  next
    case (Cons d ds')
    with \<open>s = c # ds\<close> show ?thesis
      by (auto simp add: skipFraction_def dropWhile_eq_Nil_conv)
  qed
qed

lemma time_Parse_steps:
  "time_Parse s = Inr (h, m, sec) \<longleftrightarrow>
     (\<exists>s1 s2 s3 s4 s5.
        getnum s False = Some (h, s1) \<and> h < 24 \<and> skipColon s1 = Some s2
      \<and> getnum s2 True = Some (m, s3) \<and> m < 60 \<and> skipColon s3 = Some s4
      \<and> getnum s4 True = Some (sec, s5) \<and> sec < 60 \<and> skipFraction s5 = [])"
  by (auto simp add: time_Parse_def split: option.splits prod.splits if_splits)

lemma not_isDigit_colon: "\<not> isDigit (CHR '':'')"
  by (simp add: isDigit_def)

lemma decimalValue_1: "decimalValue [c] = digitVal c"
  by (simp add: decimalValue_def)

lemma decimalValue_2: "decimalValue [c, d] = digitVal c * 10 + digitVal d"
  by (simp add: decimalValue_def)

lemma length_1_or_2:
  "(length hs = 1 \<or> length hs = 2) \<longleftrightarrow> (\<exists>c. hs = [c]) \<or> (\<exists>c d. hs = [c, d])"
  by (cases hs; cases "tl hs"; cases "tl (tl hs)") auto

lemma time_Parse_layout:
  "(\<exists>r. time_Parse s = Inr r) \<longleftrightarrow>
     (\<exists>hs m1 m2 s1 s2 fr.
        s = hs @ [CHR '':'', m1, m2, CHR '':'', s1, s2] @ fr
      \<and> (length hs = 1 \<or> length hs = 2) \<and> (\<forall>c \<in> set hs. isDigit c) \<and> decimalValue hs < 24
      \<and> isDigit m1 \<and> isDigit m2 \<and> digitVal m1 * 10 + digitVal m2 < 60
      \<and> isDigit s1 \<and> isDigit s2 \<and> digitVal s1 * 10 + digitVal s2 < 60
      \<and> (fr = [] \<or> (\<exists>c ds. fr = c # ds \<and> commaOrPeriod c \<and> ds \<noteq> [] \<and> (\<forall>d \<in> set ds. isDigit d))))"
  (is "?L \<longleftrightarrow> ?R")
proof
  assume ?L
  then obtain h m sec where "time_Parse s = Inr (h, m, sec)"
    by (metis prod_cases3)
  then obtain t1 t2 t3 t4 t5 where
    g1: "getnum s False = Some (h, t1)" and h: "h < 24" and c1: "skipColon t1 = Some t2"
    and g2: "getnum t2 True = Some (m, t3)" and m: "m < 60" and c2: "skipColon t3 = Some t4"
    and g3: "getnum t4 True = Some (sec, t5)" and sec: "sec < 60" and fr: "skipFraction t5 = []"
    unfolding time_Parse_steps by blast
  from c1 have t1: "t1 = CHR '':'' # t2" by (simp add: skipColon_Some)
  from c2 have t3: "t3 = CHR '':'' # t4" by (simp add: skipColon_Some)
  from g2 obtain m1 m2 where t2: "t2 = m1 # m2 # t3" and dm: "isDigit m1" "isDigit m2"
    and vm: "m = digitVal m1 * 10 + digitVal m2"
    unfolding getnum_fixed by blast
  from g3 obtain s1 s2 where t4: "t4 = s1 # s2 # t5" and ds: "isDigit s1" "isDigit s2"
    and vs: "sec = digitVal s1 * 10 + digitVal s2"
    unfolding getnum_fixed by blast
  from g1 obtain hs where hs: "s = hs @ t1" "length hs = 1 \<or> length hs = 2"
    "\<forall>c \<in> set hs. isDigit c" "decimalValue hs = h"
  proof -
    from g1 consider c where "s = c # t1" "isDigit c" "h = digitVal c"
      | c d where "s = c # d # t1" "isDigit c" "isDigit d" "h = digitVal c * 10 + digitVal d"
      unfolding getnum_free by blast
    then show ?thesis
    proof cases
      case 1
      then show ?thesis using that [of "[c]"] by (simp add: decimalValue_1)
    next
      case 2
      then show ?thesis using that [of "[c, d]"] by (simp add: decimalValue_2)
    qed
  qed
  have "s = hs @ [CHR '':'', m1, m2, CHR '':'', s1, s2] @ t5"
    using hs(1) t1 t2 t3 t4 by simp
  then show ?R
    using hs(2,3,4) h dm vm m ds vs sec fr [unfolded skipFraction_Nil]
    by blast
next
  assume ?R
  then obtain hs m1 m2 s1 s2 fr where
    s: "s = hs @ [CHR '':'', m1, m2, CHR '':'', s1, s2] @ fr"
    and len: "length hs = 1 \<or> length hs = 2" and dh: "\<forall>c \<in> set hs. isDigit c"
    and vh: "decimalValue hs < 24"
    and dm: "isDigit m1" "isDigit m2" and vm: "digitVal m1 * 10 + digitVal m2 < 60"
    and ds: "isDigit s1" "isDigit s2" and vs: "digitVal s1 * 10 + digitVal s2 < 60"
    and fr: "fr = [] \<or> (\<exists>c ds. fr = c # ds \<and> commaOrPeriod c \<and> ds \<noteq> [] \<and> (\<forall>d \<in> set ds. isDigit d))"
    by blast
  let ?rest = "CHR '':'' # m1 # m2 # CHR '':'' # s1 # s2 # fr"
  have g1: "getnum s False = Some (decimalValue hs, ?rest)"
  proof -
    from len consider c where "hs = [c]" | c d where "hs = [c, d]"
      unfolding length_1_or_2 by blast
    then show ?thesis
    proof cases
      case 1
      with dh s show ?thesis
        by (simp add: decimalValue_1 not_isDigit_colon)
    next
      case 2
      with dh s show ?thesis
        by (simp add: decimalValue_2)
    qed
  qed
  have g2: "getnum (m1 # m2 # CHR '':'' # s1 # s2 # fr) True
              = Some (digitVal m1 * 10 + digitVal m2, CHR '':'' # s1 # s2 # fr)"
    using dm by simp
  have g3: "getnum (s1 # s2 # fr) True = Some (digitVal s1 * 10 + digitVal s2, fr)"
    using ds by simp
  have f: "skipFraction fr = []"
    using fr unfolding skipFraction_Nil .
  have "time_Parse s = Inr (decimalValue hs, digitVal m1 * 10 + digitVal m2,
                            digitVal s1 * 10 + digitVal s2)"
    unfolding time_Parse_steps
    using g1 g2 g3 f vh vm vs by (simp add: skipColon_Some)
  then show ?L by blast
qed

lemma list8:
  "length s = 8 \<Longrightarrow> s = [s ! 0, s ! 1] @ [s ! 2, s ! 3, s ! 4, s ! 5, s ! 6, s ! 7] @ []"
  by (rule nth_equalityI) (auto simp add: nth_Cons' less_Suc_eq numeral_eq_Suc)

lemma parseTime_None: "parseTime t = None \<longleftrightarrow> (\<exists>r. time_Parse (strings_Trim t) = Inr r)"
  by (auto simp add: parseTime_def split: sum.splits)

section \<open>The timecode parser\<close>

text \<open>
  Claim C6 as the specification states it fails. The code accepts an hour of one digit and
  a fractional second, which are not \<^verbatim>\<open>HH:MM:SS\<close>; and it trims spaces only, so a
  token that is a valid time behind a tab is rejected.
\<close>

theorem parseTime_counterexample:
  "parseTime ''1:02:03'' = None \<and> \<not> spec_HHMMSS (spec_trim ''1:02:03'')
   \<and> parseTime ''00:03:15.5'' = None \<and> \<not> spec_HHMMSS (spec_trim ''00:03:15.5'')
   \<and> parseTime (CHR 0x09 # ''00:03:15'') = Some ParseError
   \<and> spec_HHMMSS (spec_trim (CHR 0x09 # ''00:03:15''))"
  by code_simp

text \<open>
  Claim C6, amended. A token is accepted exactly when, with the spaces at both ends
  removed, it is one or two digits of hours with a value below 24, a colon, two digits of
  minutes below 60, a colon, two digits of seconds below 60, and then nothing or a comma or
  period followed by one or more digits. Every \<^verbatim>\<open>HH:MM:SS\<close> value of the specification
  is accepted. A line with a space whose token is not accepted fails with
  \<^verbatim>\<open>InvalidTimecode\<close>.
\<close>

theorem parseTime_accepts:
  "(parseTime t = None \<longleftrightarrow>
     (\<exists>hs m1 m2 s1 s2 fr.
        strings_Trim t = hs @ [CHR '':'', m1, m2, CHR '':'', s1, s2] @ fr
      \<and> (length hs = 1 \<or> length hs = 2) \<and> (\<forall>c \<in> set hs. isDigit c) \<and> decimalValue hs < 24
      \<and> isDigit m1 \<and> isDigit m2 \<and> digitVal m1 * 10 + digitVal m2 < 60
      \<and> isDigit s1 \<and> isDigit s2 \<and> digitVal s1 * 10 + digitVal s2 < 60
      \<and> (fr = [] \<or> (\<exists>c ds. fr = c # ds \<and> commaOrPeriod c \<and> ds \<noteq> [] \<and> (\<forall>d \<in> set ds. isDigit d)))))
   \<and> (spec_HHMMSS (strings_Trim t) \<longrightarrow> parseTime t = None)
   \<and> (space \<in> set text \<and> parseTime (takeWhile (\<lambda>c. c \<noteq> space) text) \<noteq> None \<longrightarrow>
        scanLine text = Inl InvalidTimecode)"
proof (intro conjI impI)
  show "parseTime t = None \<longleftrightarrow>
     (\<exists>hs m1 m2 s1 s2 fr.
        strings_Trim t = hs @ [CHR '':'', m1, m2, CHR '':'', s1, s2] @ fr
      \<and> (length hs = 1 \<or> length hs = 2) \<and> (\<forall>c \<in> set hs. isDigit c) \<and> decimalValue hs < 24
      \<and> isDigit m1 \<and> isDigit m2 \<and> digitVal m1 * 10 + digitVal m2 < 60
      \<and> isDigit s1 \<and> isDigit s2 \<and> digitVal s1 * 10 + digitVal s2 < 60
      \<and> (fr = [] \<or> (\<exists>c ds. fr = c # ds \<and> commaOrPeriod c \<and> ds \<noteq> [] \<and> (\<forall>d \<in> set ds. isDigit d))))"
    unfolding parseTime_None by (rule time_Parse_layout)
next
  assume sp: "spec_HHMMSS (strings_Trim t)"
  let ?s = "strings_Trim t"
  from sp have len: "length ?s = 8" by (simp add: spec_HHMMSS_def)
  have "\<exists>r. time_Parse ?s = Inr r"
    unfolding time_Parse_layout
    apply (rule exI [of _ "[?s ! 0, ?s ! 1]"])
    apply (rule exI [of _ "?s ! 3"])
    apply (rule exI [of _ "?s ! 4"])
    apply (rule exI [of _ "?s ! 6"])
    apply (rule exI [of _ "?s ! 7"])
    apply (rule exI [of _ "[]"])
    using sp list8 [OF len]
    apply (simp add: spec_HHMMSS_def decimalValue_2)
    done
  then show "parseTime t = None"
    by (simp add: parseTime_None)
next
  assume "space \<in> set text \<and> parseTime (takeWhile (\<lambda>c. c \<noteq> space) text) \<noteq> None"
  then show "scanLine text = Inl InvalidTimecode"
    by (simp add: scanLine_eq)
qed

theorem parseTime_accepts_witness:
  "spec_HHMMSS (strings_Trim ''00:03:15 '') \<and> parseTime ''00:03:15 '' = None
   \<and> space \<in> set ''badtime Intro''
   \<and> parseTime (takeWhile (\<lambda>c. c \<noteq> space) ''badtime Intro'') \<noteq> None
   \<and> scanLine ''badtime Intro'' = Inl InvalidTimecode"
proof -
  have a: "spec_HHMMSS (strings_Trim ''00:03:15 '')"
    by code_simp
  have b: "space \<in> set ''badtime Intro''
           \<and> parseTime (takeWhile (\<lambda>c. c \<noteq> space) ''badtime Intro'') \<noteq> None"
    by code_simp
  note th = parseTime_accepts [of "''00:03:15 ''" "''badtime Intro''"]
  from th [THEN conjunct2, THEN conjunct1, rule_format, OF a]
       th [THEN conjunct2, THEN conjunct2, rule_format, OF b] a b
  show ?thesis by simp
qed

text \<open>
  Claim C7 as the specification states it fails: a tab is no separator for the code (a
  line with a tab and no space is an \<^verbatim>\<open>InvalidFormat\<close>), and a tab at the start of
  the title is not trimmed.
\<close>

theorem scanLine_counterexample:
  "scanLine (''00:00:00'' @ [CHR 0x09] @ ''Intro'') = Inl InvalidFormat
   \<and> spec_splitLine (''00:00:00'' @ [CHR 0x09] @ ''Intro'') = (''00:00:00'', ''Intro'')
   \<and> scanLine (''00:00:00 '' @ [CHR 0x09] @ ''Intro'') = Inr (''00:00:00'', CHR 0x09 # ''Intro'')
   \<and> spec_splitLine (''00:00:00 '' @ [CHR 0x09] @ ''Intro'') = (''00:00:00'', ''Intro'')"
  by code_simp

lemma takeWhile_token:
  "space \<notin> set tm \<Longrightarrow> takeWhile (\<lambda>c. c \<noteq> space) (tm @ space # rest) = tm"
  by (induction tm) auto

lemma dropWhile_token:
  "space \<notin> set tm \<Longrightarrow> dropWhile (\<lambda>c. c \<noteq> space) (tm @ space # rest) = space # rest"
  by (induction tm) auto

text \<open>
  Claim C7, amended. A line gives the entry \<open>(tm, ti)\<close> exactly when it is \<open>tm\<close>, one
  or more spaces, \<open>ti\<close> and any number of spaces, where \<open>tm\<close> holds no space and is an
  accepted time, and \<open>ti\<close> neither starts nor ends with a space. So the line is split at
  its first run of space bytes (\<open>0x20\<close>), and the title is the rest without the spaces
  around it, its inside unchanged.
\<close>

theorem scanLine_split:
  "scanLine text = Inr (tm, ti) \<longleftrightarrow>
     (\<exists>a b. text = tm @ replicate (Suc a) space @ ti @ replicate b space)
   \<and> space \<notin> set tm
   \<and> (ti = [] \<or> (hd ti \<noteq> space \<and> last ti \<noteq> space))
   \<and> parseTime tm = None"
  (is "?L \<longleftrightarrow> ?R")
proof
  assume L: ?L
  then have sp: "space \<in> set text"
    and tm: "tm = takeWhile (\<lambda>c. c \<noteq> space) text"
    and ti: "ti = strings_Trim (tl (dropWhile (\<lambda>c. c \<noteq> space) text))"
    and ok: "parseTime tm = None"
    by (auto simp add: scanLine_eq split: if_splits)
  have ns: "space \<notin> set tm"
    unfolding tm by (auto dest: set_takeWhileD)
  have "dropWhile (\<lambda>c. c \<noteq> space) text \<noteq> []"
    using sp by (simp add: dropWhile_eq_Nil_conv)
  moreover from this have "hd (dropWhile (\<lambda>c. c \<noteq> space) text) = space"
    using hd_dropWhile [of "\<lambda>c. c \<noteq> space" "text"] by simp
  ultimately have dw: "dropWhile (\<lambda>c. c \<noteq> space) text
      = space # tl (dropWhile (\<lambda>c. c \<noteq> space) text)"
    by (metis list.collapse)
  obtain a b where ab: "tl (dropWhile (\<lambda>c. c \<noteq> space) text)
      = replicate a space @ ti @ replicate b space"
    unfolding ti using strings_Trim_decomp by blast
  have "text = tm @ dropWhile (\<lambda>c. c \<noteq> space) text"
    unfolding tm by simp
  also have "\<dots> = tm @ replicate (Suc a) space @ ti @ replicate b space"
    by (subst dw) (simp add: ab)
  finally have ex: "\<exists>a b. text = tm @ replicate (Suc a) space @ ti @ replicate b space"
    by blast
  have ends: "ti = [] \<or> (hd ti \<noteq> space \<and> last ti \<noteq> space)"
    unfolding ti by (rule strings_Trim_ends)
  from ex ns ends ok show ?R
    by simp
next
  assume R: ?R
  then obtain a b where tx: "text = tm @ space # (replicate a space @ ti @ replicate b space)"
    by auto
  from R have ns: "space \<notin> set tm" and ends: "ti = [] \<or> (hd ti \<noteq> space \<and> last ti \<noteq> space)"
    and ok: "parseTime tm = None"
    by blast+
  have sp: "space \<in> set text" by (simp add: tx)
  show ?L
    unfolding scanLine_eq
    using sp ok strings_Trim_padded [OF ends, of a b]
    by (simp add: tx takeWhile_token [OF ns] dropWhile_token [OF ns] del: replicate_Suc)
qed

theorem scanLine_split_witness:
  "space \<notin> set ''00:03:15'' \<and> parseTime ''00:03:15'' = None
   \<and> scanLine (''00:03:15'' @ replicate (Suc 2) space @ ''Track  Two'' @ replicate 2 space)
       = Inr (''00:03:15'', ''Track  Two'')"
proof -
  have a: "space \<notin> set ''00:03:15''" "parseTime ''00:03:15'' = None"
    "hd ''Track  Two'' \<noteq> space" "last ''Track  Two'' \<noteq> space"
    by code_simp+
  have "scanLine (''00:03:15'' @ replicate (Suc 2) space @ ''Track  Two'' @ replicate 2 space)
       = Inr (''00:03:15'', ''Track  Two'')"
    unfolding scanLine_split using a by blast
  with a show ?thesis by simp
qed

text \<open>
  Claim C3 as the specification states it fails: a line whose separator is a tab has a
  white space separator and a time token that parses, and the parse fails with
  \<^verbatim>\<open>InvalidFormat\<close> all the same; a line of spaces only is not skipped, it fails with
  \<^verbatim>\<open>InvalidTimecode\<close>.
\<close>

theorem parseTimecodes_counterexample:
  "parseTimecodes [''00:00:00 Intro'', ''00:03:15'' @ [CHR 0x09] @ ''Coda''] = Inl InvalidFormat
   \<and> list_ex spec_isWhitespace (''00:03:15'' @ [CHR 0x09] @ ''Coda'')
   \<and> fst (spec_splitLine (''00:03:15'' @ [CHR 0x09] @ ''Coda'')) = ''00:03:15''
   \<and> spec_HHMMSS ''00:03:15''
   \<and> parseTimecodes [''00:00:00 Intro'', ''   ''] = Inl InvalidTimecode
   \<and> list_all spec_isWhitespace ''   ''"
  by code_simp

text \<open>
  Claim C3, amended. Only empty lines are skipped. The result is decided by the first
  non-empty line that holds no space (\<^verbatim>\<open>InvalidFormat\<close>, an error without argument) or
  whose text before the first space is not an accepted time (\<^verbatim>\<open>InvalidTimecode\<close>);
  when there is no such line, by the number of non-empty lines: none gives
  \<^verbatim>\<open>NoTimecodesFound\<close>, more than 999 give \<^verbatim>\<open>TooManyTracks\<close> with the count, and
  otherwise the parse succeeds with one entry per non-empty line, in order. So the parse
  fails exactly when some non-empty line holds no space, or some line with a space has a
  token that is not accepted, or no line is non-empty, or more than 999 are.
\<close>

theorem parseTimecodes_failure:
  "parseTimecodes lines =
     (case find (\<lambda>l. space \<notin> set l \<or> parseTime (takeWhile (\<lambda>c. c \<noteq> space) l) \<noteq> None)
             (filter (\<lambda>l. l \<noteq> []) lines) of
        Some l \<Rightarrow> Inl (if space \<notin> set l then InvalidFormat else InvalidTimecode)
      | None \<Rightarrow>
          if filter (\<lambda>l. l \<noteq> []) lines = [] then Inl NoTimecodesFound
          else if length (filter (\<lambda>l. l \<noteq> []) lines) > 999
            then Inl (TooManyTracks (length (filter (\<lambda>l. l \<noteq> []) lines)))
          else Inr (map (\<lambda>l. (takeWhile (\<lambda>c. c \<noteq> space) l,
                              strings_Trim (tl (dropWhile (\<lambda>c. c \<noteq> space) l))))
                      (filter (\<lambda>l. l \<noteq> []) lines)))
   \<and> ((\<exists>e. parseTimecodes lines = Inl e) \<longleftrightarrow>
        (\<exists>l \<in> set lines. l \<noteq> [] \<and> space \<notin> set l)
      \<or> (\<exists>l \<in> set lines. space \<in> set l \<and> parseTime (takeWhile (\<lambda>c. c \<noteq> space) l) \<noteq> None)
      \<or> filter (\<lambda>l. l \<noteq> []) lines = []
      \<or> length (filter (\<lambda>l. l \<noteq> []) lines) > 999)"
proof -
  let ?bad = "\<lambda>l. space \<notin> set l \<or> parseTime (takeWhile (\<lambda>c. c \<noteq> space) l) \<noteq> None"
  let ?ne = "filter (\<lambda>l. l \<noteq> []) lines"
  have eq: "parseTimecodes lines =
     (case find ?bad ?ne of
        Some l \<Rightarrow> Inl (if space \<notin> set l then InvalidFormat else InvalidTimecode)
      | None \<Rightarrow>
          if ?ne = [] then Inl NoTimecodesFound
          else if length ?ne > 999 then Inl (TooManyTracks (length ?ne))
          else Inr (map (\<lambda>l. (takeWhile (\<lambda>c. c \<noteq> space) l,
                              strings_Trim (tl (dropWhile (\<lambda>c. c \<noteq> space) l)))) ?ne))"
    by (rule parseTimecodes_eq)
  have "(\<exists>e. parseTimecodes lines = Inl e) \<longleftrightarrow>
          find ?bad ?ne \<noteq> None \<or> ?ne = [] \<or> length ?ne > 999"
    unfolding eq by (auto split: option.splits)
  also have "find ?bad ?ne \<noteq> None \<longleftrightarrow>
        (\<exists>l \<in> set lines. l \<noteq> [] \<and> space \<notin> set l)
      \<or> (\<exists>l \<in> set lines. space \<in> set l \<and> parseTime (takeWhile (\<lambda>c. c \<noteq> space) l) \<noteq> None)"
    unfolding find_None_all by auto
  finally show ?thesis
    using eq by blast
qed

theorem parseTimecodes_failure_witness:
  "parseTimecodes (replicate 1000 ''00:00:00 x'') = Inl (TooManyTracks 1000)
   \<and> parseTimecodes ['''', ''''] = Inl NoTimecodesFound
   \<and> parseTimecodes [''00:00:00 Intro'', ''badtime Intro''] = Inl InvalidTimecode
   \<and> parseTimecodes [''00:00:00 Intro'', ''00:03:15''] = Inl InvalidFormat
   \<and> parseTimecodes [''00:00:00 Intro'', '''', ''00:03:15   Track  Two  '']
       = Inr [(''00:00:00'', ''Intro''), (''00:03:15'', ''Track  Two'')]"
proof -
  let ?bad = "\<lambda>l. space \<notin> set l \<or> parseTime (takeWhile (\<lambda>c. c \<noteq> space) l) \<noteq> None"
  have ok: "\<not> ?bad ''00:00:00 x''"
    by code_simp
  have f1: "find ?bad (filter (\<lambda>l. l \<noteq> []) (replicate 1000 ''00:00:00 x'')) = None"
    unfolding find_None_all using ok by simp
  have 1: "parseTimecodes (replicate 1000 ''00:00:00 x'') = Inl (TooManyTracks 1000)"
    unfolding parseTimecodes_failure [THEN conjunct1] f1 by simp
  have 2: "parseTimecodes ['''', ''''] = Inl NoTimecodesFound"
    unfolding parseTimecodes_failure [THEN conjunct1] by simp
  have f3: "find ?bad (filter (\<lambda>l. l \<noteq> []) [''00:00:00 Intro'', ''badtime Intro'']) = Some ''badtime Intro''"
    by code_simp
  have 3: "parseTimecodes [''00:00:00 Intro'', ''badtime Intro''] = Inl InvalidTimecode"
    unfolding parseTimecodes_failure [THEN conjunct1] f3 by (simp add: space_def)
  have f4: "find ?bad (filter (\<lambda>l. l \<noteq> []) [''00:00:00 Intro'', ''00:03:15'']) = Some ''00:03:15''"
    by code_simp
  have 4: "parseTimecodes [''00:00:00 Intro'', ''00:03:15''] = Inl InvalidFormat"
    unfolding parseTimecodes_failure [THEN conjunct1] f4 by (simp add: space_def)
  have 5: "parseTimecodes [''00:00:00 Intro'', [], ''00:03:15   Track  Two  '']
       = Inr [(''00:00:00'', ''Intro''), (''00:03:15'', ''Track  Two'')]"
    by code_simp
  from 1 2 3 4 5 show ?thesis by simp
qed

text \<open>
  Claim C8 as the specification states it fails: a line made of a time and a space is
  accepted and gives an entry whose title is empty.
\<close>

theorem parseTimecodes_empty_title_counterexample:
  "parseTimecodes [''00:00:00 Intro'', ''00:03:15 ''] = Inr [(''00:00:00'', ''Intro''), (''00:03:15'', [])]
   \<and> spec_trim [] = []"
  by code_simp

text \<open>
  Claim C8, amended. Every entry of a successful parse comes from a line of the file and has
  a title without a space at its start or at its end (trimming it again changes nothing);
  the title may be empty.
\<close>

theorem parseTimecodes_titles:
  assumes "parseTimecodes lines = Inr timecodes"
  shows "\<forall>tc \<in> set timecodes.
           (snd tc = [] \<or> (hd (snd tc) \<noteq> space \<and> last (snd tc) \<noteq> space))
         \<and> strings_Trim (snd tc) = snd tc
         \<and> (\<exists>text \<in> set lines. scanLine text = Inr tc)"
proof
  fix tc
  assume tc: "tc \<in> set timecodes"
  let ?bad = "\<lambda>l. space \<notin> set l \<or> parseTime (takeWhile (\<lambda>c. c \<noteq> space) l) \<noteq> None"
  let ?ne = "filter (\<lambda>l. l \<noteq> []) lines"
  let ?entry = "\<lambda>l. (takeWhile (\<lambda>c. c \<noteq> space) l,
                      strings_Trim (tl (dropWhile (\<lambda>c. c \<noteq> space) l)))"
  from assms have none: "find ?bad ?ne = None" and tcs: "timecodes = map ?entry ?ne"
    unfolding parseTimecodes_eq
    by (auto split: option.splits if_splits)
  from tc tcs obtain l where l: "l \<in> set lines" "l \<noteq> []" "tc = ?entry l"
    by auto
  from none l have good: "\<not> ?bad l"
    unfolding find_None_all by auto
  then have sl: "scanLine l = Inr tc"
    by (simp add: scanLine_eq l(3))
  have "snd tc = strings_Trim (tl (dropWhile (\<lambda>c. c \<noteq> space) l))"
    by (simp add: l(3))
  then show "(snd tc = [] \<or> (hd (snd tc) \<noteq> space \<and> last (snd tc) \<noteq> space))
         \<and> strings_Trim (snd tc) = snd tc
         \<and> (\<exists>text \<in> set lines. scanLine text = Inr tc)"
    using strings_Trim_ends [of "tl (dropWhile (\<lambda>c. c \<noteq> space) l)"]
      strings_Trim_idem [of "tl (dropWhile (\<lambda>c. c \<noteq> space) l)"] sl l(1)
    by auto
qed

theorem parseTimecodes_titles_witness:
  "parseTimecodes [''00:00:00 Intro'', ''00:03:15   Track  Two  '']
     = Inr [(''00:00:00'', ''Intro''), (''00:03:15'', ''Track  Two'')]
   \<and> strings_Trim ''Intro'' = ''Intro'' \<and> strings_Trim ''Track  Two'' = ''Track  Two''"
proof -
  have p: "parseTimecodes [''00:00:00 Intro'', ''00:03:15   Track  Two  '']
     = Inr [(''00:00:00'', ''Intro''), (''00:03:15'', ''Track  Two'')]"
    by code_simp
  from parseTimecodes_titles [OF p] p show ?thesis by simp
qed

end
